theory Spec2Isabelle
  imports Complex_Main
begin

section \<open>Values of the configuration store\<close>

text \<open>
  The add-on's configuration is what the host's add-on manager reads from a JSON file: a
  Python dict, or None when nothing is stored. A dict is an association list in insertion
  order; strings are lists of code points below 256. JSON numbers with a fraction are
  left out: the settings dialog stores integer alpha values.
\<close>

datatype json =
    JNull
  | JBool bool
  | JInt int
  | JStr string
  | JList "json list"
  | JDict "(string \<times> json) list"

type_synonym dict = "(string \<times> json) list"

text \<open>\<^verbatim>\<open>key in d\<close> and \<^verbatim>\<open>d.get(key, default)\<close> of a Python dict.\<close>

definition has_key :: "string \<Rightarrow> dict \<Rightarrow> bool" where
  "has_key k d = (map_of d k \<noteq> None)"

definition dict_get :: "dict \<Rightarrow> string \<Rightarrow> json \<Rightarrow> json" where
  "dict_get d k dflt = (case map_of d k of None \<Rightarrow> dflt | Some v \<Rightarrow> v)"

text \<open>The exception classes that the two programs can meet.\<close>

datatype pyerr =
    TypeError
  | ValueError
  | AttributeError
  | KeyError
  | OverflowError
  | ZeroDivisionError
  | IOError
  | JSONDecodeError
  | RequestException

definition then_do :: "pyerr + 'a \<Rightarrow> ('a \<Rightarrow> pyerr + 'b) \<Rightarrow> pyerr + 'b" where
  "then_do r f = (case r of Inl e \<Rightarrow> Inl e | Inr x \<Rightarrow> f x)"

abbreviation NL :: string where
  "NL \<equiv> [CHR 0x0A]"

section \<open>The overlay object and the migration of its configuration\<close>

text \<open>
  \<open>config\<close> is \<^verbatim>\<open>self.config\<close> (None before anything is stored); \<open>written\<close> lists the
  configurations handed to \<^verbatim>\<open>mw.addonManager.writeConfig\<close>, oldest first; \<open>shown\<close> lists
  the texts handed to \<^verbatim>\<open>showInfo\<close>, oldest first.
\<close>

record overlay =
  config :: "dict option"
  written :: "dict list"
  shown :: "string list"

definition default_config :: dict where
  "default_config =
     [(''light_theme'', JDict [(''color'', JStr ''#ffffff''), (''alpha'', JInt 15)]),
      (''dark_theme'', JDict [(''color'', JStr ''#000000''), (''alpha'', JInt 30)])]"

definition migrated_config :: "json \<Rightarrow> json \<Rightarrow> dict" where
  "migrated_config old_color old_alpha =
     [(''light_theme'', JDict [(''color'', JStr ''#ffffff''), (''alpha'', old_alpha)]),
      (''dark_theme'', JDict [(''color'', old_color), (''alpha'', old_alpha)])]"

definition migration_notice :: string where
  "migration_notice =
     ''Transparent Overlay: Updated to support separate Dark/Light theme colors!''
     @ NL @ NL
     @ ''Your previous settings have been preserved for Dark theme.'' @ NL
     @ ''You can now configure different colors for Light theme in the addon settings.''"

definition migrate_config_if_needed :: "overlay \<Rightarrow> overlay" where
  "migrate_config_if_needed ov =
     (case config ov of
        None \<Rightarrow> ov\<lparr>config := Some default_config\<rparr>
      | Some c \<Rightarrow>
          if has_key ''color'' c \<and> has_key ''alpha'' c then
            (let old_color = dict_get c ''color'' (JStr ''#000000'');
                 old_alpha = dict_get c ''alpha'' (JInt 30);
                 new = migrated_config old_color old_alpha
             in ov\<lparr>config := Some new,
                    written := written ov @ [new],
                    shown := shown ov @ [migration_notice]\<rparr>)
          else ov)"

text \<open>
  The constructor up to the migration: \<^verbatim>\<open>self.config = mw.addonManager.getConfig(__name__)\<close>
  followed by \<^verbatim>\<open>self.migrate_config_if_needed()\<close>.
\<close>

definition load_and_migrate :: "dict option \<Rightarrow> overlay" where
  "load_and_migrate stored =
     migrate_config_if_needed \<lparr>config = stored, written = [], shown = []\<rparr>"

section \<open>Built-ins of Python that the renderers use\<close>

subsection \<open>\<^verbatim>\<open>int(s, 16)\<close> and \<^verbatim>\<open>str(n)\<close>\<close>

text \<open>
  \<^verbatim>\<open>int(s, 16)\<close> strips white space at both ends, takes one optional sign, one optional
  prefix \<^verbatim>\<open>0x\<close> or \<^verbatim>\<open>0X\<close> (which one underscore may follow), and then wants hexadecimal
  digits, single underscores allowed between two of them. Anything else is a ValueError
  (\<open>None\<close> here).
\<close>

definition py_isspace :: "char \<Rightarrow> bool" where
  "py_isspace c =
     (c \<in> set [CHR 0x09, CHR 0x0A, CHR 0x0B, CHR 0x0C, CHR 0x0D, CHR 0x20, CHR 0x85, CHR 0xA0])"

definition py_strip :: "string \<Rightarrow> string" where
  "py_strip s = rev (dropWhile py_isspace (rev (dropWhile py_isspace s)))"

definition hex_val :: "char \<Rightarrow> int option" where
  "hex_val =
     map_of [(CHR ''0'', 0), (CHR ''1'', 1), (CHR ''2'', 2), (CHR ''3'', 3), (CHR ''4'', 4),
             (CHR ''5'', 5), (CHR ''6'', 6), (CHR ''7'', 7), (CHR ''8'', 8), (CHR ''9'', 9),
             (CHR ''a'', 10), (CHR ''b'', 11), (CHR ''c'', 12), (CHR ''d'', 13),
             (CHR ''e'', 14), (CHR ''f'', 15),
             (CHR ''A'', 10), (CHR ''B'', 11), (CHR ''C'', 12), (CHR ''D'', 13),
             (CHR ''E'', 14), (CHR ''F'', 15)]"

fun hex_digits :: "int \<Rightarrow> string \<Rightarrow> int option" where
  "hex_digits acc [] = Some acc"
| "hex_digits acc (c # cs) =
     (if c = CHR ''_'' then
        (case cs of
           [] \<Rightarrow> None
         | d # _ \<Rightarrow> if d = CHR ''_'' then None else hex_digits acc cs)
      else
        (case hex_val c of
           None \<Rightarrow> None
         | Some v \<Rightarrow> hex_digits (16 * acc + v) cs))"

definition py_int16 :: "string \<Rightarrow> int option" where
  "py_int16 s =
     (let t = py_strip s;
          (sgn, u) = (case t of
                        c # cs \<Rightarrow> if c = CHR ''-'' then (- 1, cs)
                                  else if c = CHR ''+'' then (1, cs) else (1, t)
                      | [] \<Rightarrow> (1, t));
          v = (case u of
                 c # d # cs \<Rightarrow>
                   if c = CHR ''0'' \<and> (d = CHR ''x'' \<or> d = CHR ''X'') then
                     (case cs of e # es \<Rightarrow> if e = CHR ''_'' then es else cs | [] \<Rightarrow> cs)
                   else u
               | _ \<Rightarrow> u)
      in case v of
           [] \<Rightarrow> None
         | c # _ \<Rightarrow> if c = CHR ''_'' then None
                    else map_option (\<lambda>n. sgn * n) (hex_digits 0 v))"

text \<open>The slice \<^verbatim>\<open>s[i:j]\<close> for \<open>0 \<le> i \<le> j\<close>: it never raises, it is just shorter.\<close>

definition py_slice :: "nat \<Rightarrow> nat \<Rightarrow> string \<Rightarrow> string" where
  "py_slice i j s = take (j - i) (drop i s)"

function digits10 :: "int \<Rightarrow> string" where
  "digits10 n =
     (if n < 10 then [''0123456789'' ! nat n]
      else digits10 (n div 10) @ [''0123456789'' ! nat (n mod 10)])"
  by pat_completeness auto
termination
  by (relation "measure nat") (auto simp: int_div_less_self pos_imp_zdiv_nonneg_iff)

declare digits10.simps [simp del]

definition py_str_int :: "int \<Rightarrow> string" where
  "py_str_int n = (if n < 0 then ''-'' @ digits10 (- n) else digits10 n)"

subsection \<open>\<^verbatim>\<open>alpha / 100\<close>: true division of integers, and the text of a float\<close>

text \<open>
  A finite float is \<open>(-1)\<^sup>s \<sqdot> m \<sqdot> 2\<^sup>e\<close> with \<open>m < 2\<^sup>5\<^sup>3\<close>. True division of two
  integers gives the float nearest to the quotient, ties to the even mantissa, and raises
  OverflowError beyond the largest float.
\<close>

datatype pyfloat = PyFloat (neg: bool) (mant: int) (expo: int)

definition round_half_even :: "int \<Rightarrow> int \<Rightarrow> int" where
  "round_half_even a b =
     (let d = a div b; r = a mod b
      in if 2 * r < b then d else if b < 2 * r then d + 1
         else if even d then d else d + 1)"

function ndigits :: "int \<Rightarrow> int \<Rightarrow> int" where
  "ndigits base n = (if n < base \<or> base < 2 then 1 else 1 + ndigits base (n div base))"
  by pat_completeness auto
termination
  by (relation "measure (\<lambda>(b, n). nat n)")
     (auto simp: int_div_less_self pos_imp_zdiv_nonneg_iff)

declare ndigits.simps [simp del]

definition pow :: "int \<Rightarrow> int \<Rightarrow> int" where
  "pow b k = b ^ nat k"

text \<open>\<open>\<lfloor>log\<^sub>2 (a / b)\<rfloor>\<close> for positive \<open>a\<close> and \<open>b\<close>.\<close>

definition ilog2_ratio :: "int \<Rightarrow> int \<Rightarrow> int" where
  "ilog2_ratio a b =
     (let k = ndigits 2 a - ndigits 2 b
      in if (if 0 \<le> k then b * pow 2 k \<le> a else b \<le> a * pow 2 (- k)) then k else k - 1)"

text \<open>Mantissa and exponent of the float nearest to \<open>a / b\<close>, for \<open>0 \<le> a\<close> and \<open>0 < b\<close>.\<close>

definition nearest_double :: "int \<Rightarrow> int \<Rightarrow> int \<times> int" where
  "nearest_double a b =
     (if a = 0 then (0, 0) else
      let e = max (ilog2_ratio a b - 52) (- 1074);
          m = (if 0 \<le> e then round_half_even a (b * pow 2 e)
               else round_half_even (a * pow 2 (- e)) b)
      in if m = 2 ^ 53 then (2 ^ 52, e + 1) else (m, e))"

text \<open>The number that a float stands for.\<close>

definition float_value :: "pyfloat \<Rightarrow> real" where
  "float_value x = (if neg x then - 1 else 1) * real_of_int (mant x) * 2 powi (expo x)"

definition float_quotient :: "int \<Rightarrow> int \<Rightarrow> pyfloat" where
  "float_quotient a b =
     (let (m, e) = nearest_double \<bar>a\<bar> \<bar>b\<bar> in PyFloat ((a < 0) \<noteq> (b < 0)) m e)"

definition int_truediv :: "int \<Rightarrow> int \<Rightarrow> pyerr + pyfloat" where
  "int_truediv a b =
     (if b = 0 then Inl ZeroDivisionError
      else let x = float_quotient a b
           in if 971 < expo x then Inl OverflowError else Inr x)"

text \<open>
  The text of a float (\<^verbatim>\<open>repr\<close>, which an f-string uses) is the shortest decimal that
  reads back as the same float, the nearest one to it among those; it is printed with an
  exponent if the decimal point lies more than 16 places to the right or more than 4 to
  the left of the digits, and with at least one digit after the point
  otherwise.

  \<open>decpt a b\<close> is the \<open>k\<close> with \<open>10\<^sup>k\<^sup>-\<^sup>1 \<le> a / b < 10\<^sup>k\<close>; \<open>try_digits\<close> looks for a
  decimal \<open>c \<sqdot> 10\<^sup>s\<close> with \<open>n\<close> digits that reads back as the float.
\<close>

definition decpt :: "int \<Rightarrow> int \<Rightarrow> int" where
  "decpt a b =
     (if b \<le> a then ndigits 10 (a div b)
      else 1 - ndigits 10 ((b + a - 1) div a - 1))"

definition scaled :: "int \<Rightarrow> int \<Rightarrow> int \<Rightarrow> int \<times> int" where
  "scaled a b s = (if 0 \<le> s then (a * pow 10 s, b) else (a, b * pow 10 (- s)))"

definition try_digits :: "int \<times> int \<Rightarrow> int \<Rightarrow> int \<Rightarrow> int \<Rightarrow> int \<Rightarrow> (int \<times> int) option" where
  "try_digits me a b k n =
     (let (p, q) = scaled a b (n - k);
          lo = p div q; hi = lo + 1;
          (lp, lq) = scaled lo 1 (k - n);
          (hp, hq) = scaled hi 1 (k - n);
          ok_lo = (lo \<noteq> 0 \<and> nearest_double lp lq = me);
          ok_hi = (nearest_double hp hq = me);
          r = p mod q
      in if ok_lo \<and> ok_hi then
           (if 2 * r < q then Some (lo, k - n) else if q < 2 * r then Some (hi, k - n)
            else if even lo then Some (lo, k - n) else Some (hi, k - n))
         else if ok_lo then Some (lo, k - n)
         else if ok_hi then Some (hi, k - n)
         else None)"

definition shortest_digits :: "int \<Rightarrow> int \<Rightarrow> int \<times> int" where
  "shortest_digits m e =
     (let (a, b) = (if 0 \<le> e then (m * pow 2 e, 1) else (m, pow 2 (- e)));
          k = decpt a b
      in case List.map_filter (try_digits (m, e) a b k)
                [1, 2, 3, 4, 5, 6, 7, 8, 9, 10, 11, 12, 13, 14, 15, 16, 17] of
           [] \<Rightarrow> (0, 0)
         | cs # _ \<Rightarrow> cs)"

function strip_zeros :: "int \<Rightarrow> int" where
  "strip_zeros n =
     (if n \<le> 0 then 0 else if n mod 10 = 0 then strip_zeros (n div 10) else n)"
  by pat_completeness auto
termination
  by (relation "measure nat") (auto simp: int_div_less_self pos_imp_zdiv_nonneg_iff)

declare strip_zeros.simps [simp del]

definition float_digits :: "string \<Rightarrow> int \<Rightarrow> string" where
  "float_digits ds K =
     (if K \<le> - 4 \<or> 16 < K then
        (let ex = K - 1; exs = digits10 \<bar>ex\<bar>
         in take 1 ds @ (if 1 < length ds then ''.'' @ drop 1 ds else [])
            @ ''e'' @ (if ex < 0 then ''-'' else ''+'')
            @ (if length exs < 2 then ''0'' @ exs else exs))
      else if K \<le> 0 then ''0.'' @ replicate (nat (- K)) (CHR ''0'') @ ds
      else if int (length ds) \<le> K then
        ds @ replicate (nat K - length ds) (CHR ''0'') @ ''.0''
      else take (nat K) ds @ ''.'' @ drop (nat K) ds)"

definition float_repr :: "pyfloat \<Rightarrow> string" where
  "float_repr x =
     (if mant x = 0 then (if neg x then ''-0.0'' else ''0.0'') else
      let (c, s) = shortest_digits (mant x) (expo x)
      in (if neg x then ''-'' else [])
         @ float_digits (digits10 (strip_zeros c)) (s + ndigits 10 c))"

section \<open>The theme resolver and the renderers\<close>

text \<open>
  \<^verbatim>\<open>get_current_theme_config\<close>: the entry of the configuration for the host's current
  mode (\<open>night\<close> is \<^verbatim>\<open>theme_manager.night_mode\<close>), or the fallback when the key is
  missing. A configuration that is still None has no \<^verbatim>\<open>get\<close>.
\<close>

definition get_current_theme_config :: "bool \<Rightarrow> overlay \<Rightarrow> pyerr + json" where
  "get_current_theme_config night ov =
     (let theme_key = (if night then ''dark_theme'' else ''light_theme'');
          fallback = JDict [(''color'', JStr (if night then ''#000000'' else ''#ffffff'')),
                            (''alpha'', JInt (if night then 30 else 15))]
      in case config ov of
           None \<Rightarrow> Inl AttributeError
         | Some c \<Rightarrow> Inr (dict_get c theme_key fallback))"

text \<open>
  \<^verbatim>\<open>int(color[i:j], 16)\<close>. Only a string can be sliced and read; any other value is a
  TypeError (for a dict the class is KeyError from Python 3.12 on; nothing in the add-on
  catches either).
\<close>

definition channel :: "nat \<Rightarrow> nat \<Rightarrow> json \<Rightarrow> pyerr + int" where
  "channel i j color =
     (case color of
        JStr s \<Rightarrow> (case py_int16 (py_slice i j s) of
                     None \<Rightarrow> Inl ValueError
                   | Some n \<Rightarrow> Inr n)
      | _ \<Rightarrow> Inl TypeError)"

text \<open>\<^verbatim>\<open>alpha / 100\<close>: an int or a bool divides, any other value of the store is a TypeError.\<close>

definition alpha_fraction :: "json \<Rightarrow> pyerr + pyfloat" where
  "alpha_fraction alpha =
     (case alpha of
        JInt n \<Rightarrow> int_truediv n 100
      | JBool b \<Rightarrow> int_truediv (if b then 1 else 0) 100
      | _ \<Rightarrow> Inl TypeError)"

text \<open>
  The lines that the three injecting methods share: the two \<^verbatim>\<open>get\<close> calls with their
  defaults, the three channels, and the fraction that the f-string computes.
\<close>

definition theme_rgba :: "json \<Rightarrow> pyerr + (int \<times> int \<times> int \<times> pyfloat)" where
  "theme_rgba theme_config =
     (case theme_config of
        JDict d \<Rightarrow>
          (let color = dict_get d ''color'' (JStr ''#000000'');
               alpha = dict_get d ''alpha'' (JInt 30)
           in then_do (channel 1 3 color) (\<lambda>r.
              then_do (channel 3 5 color) (\<lambda>g.
              then_do (channel 5 7 color) (\<lambda>b.
              then_do (alpha_fraction alpha) (\<lambda>a. Inr (r, g, b, a))))))
      | _ \<Rightarrow> Inl AttributeError)"

text \<open>
  The three f-strings. Each starts with a line break, so each is a list of lines with a
  line break before every line; the last line is the indentation before the closing
  quotes. The texts of \<open>r\<close>, \<open>g\<close>, \<open>b\<close> and of the fraction fill the holes. The text
  between the back quotes of the two scripts, which becomes the new element's
  \<^verbatim>\<open>textContent\<close>, is \<open>style_text_content\<close>.
\<close>

fun nl_lines :: "string list \<Rightarrow> string" where
  "nl_lines [] = []"
| "nl_lines (l # ls) = CHR 0x0A # l @ nl_lines ls"

definition background_css :: "string \<Rightarrow> string \<Rightarrow> string \<Rightarrow> string \<Rightarrow> string" where
  \<open>background_css r g b a =
     nl_lines
      [''        <style>'',
       ''        html {'',
       ''            background-color: rgba('' @ r @ '', '' @ g @ '', '' @ b @ '', '' @ a @ '') !important;'',
       ''        }'',
       [],
       ''        body {'',
       ''            background-color: transparent !important;'',
       ''        }'',
       [],
       ''        /* Main web view - force background on all potential containers */'',
       ''        #outer, #main, .main-webview {'',
       ''            background-color: transparent !important;'',
       ''        }'',
       [],
       ''        /* Make card backgrounds transparent to show through */'',
       ''        .card {'',
       ''            background-color: transparent !important;'',
       ''        }'',
       [],
       ''        /* Congratulations screen - target all possible selectors */'',
       ''        .congrats-container, .congrats, div[id*="congrat"], div[class*="congrat"] {'',
       ''            background-color: transparent !important;'',
       ''        }'',
       [],
       ''        /* Overview screen */'',
       ''        .overview, div[class*="overview"] {'',
       ''            background-color: transparent !important;'',
       ''        }'',
       [],
       ''        /* Force all divs to be transparent if they have default white backgrounds */'',
       ''        div:not([style*="background"]) {'',
       ''            background-color: transparent !important;'',
       ''        }'',
       ''        </style>'',
       ''        '']\<close>

definition style_text_content :: "string \<Rightarrow> string \<Rightarrow> string \<Rightarrow> string \<Rightarrow> string" where
  \<open>style_text_content r g b a =
     nl_lines
      [''            html {'',
       ''                background-color: rgba('' @ r @ '', '' @ g @ '', '' @ b @ '', '' @ a @ '') !important;'',
       ''            }'',
       ''            body {'',
       ''                background-color: transparent !important;'',
       ''            }'',
       ''        '']\<close>

definition theme_js_code :: "string \<Rightarrow> string \<Rightarrow> string \<Rightarrow> string \<Rightarrow> string" where
  \<open>theme_js_code r g b a =
     nl_lines
      [''        // Remove existing theme overlay styles'',
       ''        const existingStyle = document.getElementById('transparent-overlay-theme-style');'',
       ''        if (existingStyle) {'',
       ''            existingStyle.remove();'',
       ''        }'',
       [],
       ''        // Add new theme overlay style'',
       ''        const style = document.createElement('style');'',
       ''        style.id = 'transparent-overlay-theme-style';'',
       ''        style.textContent = `'']
     @ style_text_content r g b a @ ''`;'' @
     nl_lines
      [''        document.head.appendChild(style);'',
       ''        '']\<close>

definition finished_js_code :: "string \<Rightarrow> string \<Rightarrow> string \<Rightarrow> string \<Rightarrow> string" where
  \<open>finished_js_code r g b a =
     nl_lines
      [''        const style = document.createElement('style');'',
       ''        style.textContent = `'']
     @ style_text_content r g b a @ ''`;'' @
     nl_lines
      [''        document.head.appendChild(style);'',
       ''        '']\<close>

text \<open>
  \<^verbatim>\<open>inject_overlay\<close>: \<^verbatim>\<open>web_content.head += background_css\<close>. The head of the web
  content is a string; the result is the new head.
\<close>

definition inject_overlay :: "bool \<Rightarrow> overlay \<Rightarrow> string \<Rightarrow> pyerr + string" where
  "inject_overlay night ov head =
     then_do (get_current_theme_config night ov) (\<lambda>theme_config.
     then_do (theme_rgba theme_config) (\<lambda>(r, g, b, a).
       Inr (head @ background_css (py_str_int r) (py_str_int g) (py_str_int b) (float_repr a))))"

section \<open>The main web view and the two scripts\<close>

text \<open>
  A document is the forest of elements under its head and the forest under its body. An
  element has a tag, an id (empty when it has none), a text and children.
\<close>

datatype node = Node (tag: string) (ident: string) (content: string) (children: "node list")

record document =
  doc_head :: "node list"
  doc_body :: "node list"

text \<open>
  \<^verbatim>\<open>document.getElementById(i)\<close> is the first element with that id in document order: an
  element comes before its children, and they before its later siblings.
  \<open>remove_first i ns\<close> is the forest without that element (and what is below it), or
  \<open>None\<close> when no element has the id.
\<close>

fun remove_first :: "string \<Rightarrow> node list \<Rightarrow> node list option" where
  "remove_first i [] = None"
| "remove_first i (Node t d c ch # ns) =
     (if d = i then Some ns
      else case remove_first i ch of
             Some ch' \<Rightarrow> Some (Node t d c ch' # ns)
           | None \<Rightarrow> map_option (\<lambda>ns'. Node t d c ch # ns') (remove_first i ns))"

fun count_nodes :: "(node \<Rightarrow> bool) \<Rightarrow> node list \<Rightarrow> nat" where
  "count_nodes P [] = 0"
| "count_nodes P (Node t d c ch # ns) =
     (if P (Node t d c ch) then 1 else 0) + count_nodes P ch + count_nodes P ns"

definition count_in_document :: "(node \<Rightarrow> bool) \<Rightarrow> document \<Rightarrow> nat" where
  "count_in_document P doc = count_nodes P (doc_head doc) + count_nodes P (doc_body doc)"

text \<open>
  The statements of the two scripts.
  \<open>RemoveById i\<close> is
  \<^verbatim>\<open>const e = document.getElementById(i); if (e) { e.remove(); }\<close>
  and \<open>AppendStyle i t\<close> is
  \<^verbatim>\<open>const s = document.createElement('style'); s.id = i; s.textContent = t; document.head.appendChild(s);\<close>
  where the assignment of the id is absent from the script when \<open>i\<close> is empty. An execution
  of a script is the effect of its statements on the document, in order; the names that
  a script binds with \<^verbatim>\<open>const\<close> belong to that execution.
\<close>

datatype js_stmt = RemoveById string | AppendStyle string string

fun exec_stmt :: "js_stmt \<Rightarrow> document \<Rightarrow> document" where
  "exec_stmt (RemoveById i) doc =
     (case remove_first i (doc_head doc) of
        Some h \<Rightarrow> doc\<lparr>doc_head := h\<rparr>
      | None \<Rightarrow>
          (case remove_first i (doc_body doc) of
             Some b \<Rightarrow> doc\<lparr>doc_body := b\<rparr>
           | None \<Rightarrow> doc))"
| "exec_stmt (AppendStyle i t) doc =
     doc\<lparr>doc_head := doc_head doc @ [Node ''style'' i t []]\<rparr>"

definition theme_js_stmts :: "string \<Rightarrow> js_stmt list" where
  "theme_js_stmts t =
     [RemoveById ''transparent-overlay-theme-style'',
      AppendStyle ''transparent-overlay-theme-style'' t]"

definition finished_js_stmts :: "string \<Rightarrow> js_stmt list" where
  "finished_js_stmts t = [AppendStyle [] t]"

text \<open>
  \<^verbatim>\<open>mw.web\<close>: the document it shows and the texts handed to its \<^verbatim>\<open>eval\<close>, oldest
  first. \<open>web_eval\<close> records the text and runs its statements.
\<close>

record webview =
  doc :: document
  evaluated :: "string list"

definition web_eval :: "string \<Rightarrow> js_stmt list \<Rightarrow> webview \<Rightarrow> webview" where
  "web_eval js_code stmts w =
     w\<lparr>doc := fold exec_stmt stmts (doc w), evaluated := evaluated w @ [js_code]\<rparr>"

text \<open>
  \<^verbatim>\<open>inject_current_theme_style\<close> returns at once when there is no main web view
  (\<open>None\<close>); \<^verbatim>\<open>inject_finished_screen_style\<close> is called with one.
\<close>

definition inject_current_theme_style ::
  "bool \<Rightarrow> overlay \<Rightarrow> webview option \<Rightarrow> pyerr + webview option" where
  "inject_current_theme_style night ov web =
     (case web of
        None \<Rightarrow> Inr None
      | Some w \<Rightarrow>
          then_do (get_current_theme_config night ov) (\<lambda>theme_config.
          then_do (theme_rgba theme_config) (\<lambda>(r, g, b, a).
            (let rs = py_str_int r; gs = py_str_int g; bs = py_str_int b; as = float_repr a
             in Inr (Some (web_eval (theme_js_code rs gs bs as)
                             (theme_js_stmts (style_text_content rs gs bs as)) w))))))"

definition inject_finished_screen_style ::
  "bool \<Rightarrow> overlay \<Rightarrow> webview \<Rightarrow> pyerr + webview" where
  "inject_finished_screen_style night ov w =
     then_do (get_current_theme_config night ov) (\<lambda>theme_config.
     then_do (theme_rgba theme_config) (\<lambda>(r, g, b, a).
       (let rs = py_str_int r; gs = py_str_int g; bs = py_str_int b; as = float_repr a
        in Inr (web_eval (finished_js_code rs gs bs as)
                  (finished_js_stmts (style_text_content rs gs bs as)) w))))"

text \<open>\<^verbatim>\<open>on_theme_change\<close>: the hook of the host's theme change.\<close>

definition on_theme_change :: "bool \<Rightarrow> overlay \<Rightarrow> webview option \<Rightarrow> pyerr + webview option" where
  "on_theme_change night ov web =
     (case web of
        None \<Rightarrow> Inr None
      | Some w \<Rightarrow> inject_current_theme_style night ov (Some w))"

text \<open>Python's \<^verbatim>\<open>pat in s\<close> on strings, and the number of places where \<open>pat\<close> starts in \<open>s\<close>.\<close>

fun starts_with :: "string \<Rightarrow> string \<Rightarrow> bool" where
  "starts_with [] s = True"
| "starts_with (p # ps) [] = False"
| "starts_with (p # ps) (c # cs) = (if p = c then starts_with ps cs else False)"

fun contains_text :: "string \<Rightarrow> string \<Rightarrow> bool" where
  "contains_text pat [] = (pat = [])"
| "contains_text pat (c # cs) = (if starts_with pat (c # cs) then True else contains_text pat cs)"

fun count_text :: "string \<Rightarrow> string \<Rightarrow> nat" where
  "count_text pat [] = 0"
| "count_text pat (c # cs) = (if starts_with pat (c # cs) then 1 else 0) + count_text pat cs"

section \<open>Theme styles\<close>

text \<open>
  A theme style is an entry \<open>{color: c, alpha: n}\<close> whose colour is \<^verbatim>\<open>#\<close> and six
  hexadecimal digits and whose alpha is an integer. Nothing bounds alpha to the range of
  the dialog's slider; the bound here only keeps \<^verbatim>\<open>alpha / 100\<close> within the floats.
\<close>

definition hex_color :: "string \<Rightarrow> bool" where
  "hex_color c =
     (length c = 7 \<and> c ! 0 = CHR ''#'' \<and> list_all (\<lambda>ch. hex_val ch \<noteq> None) (tl c))"

definition theme_style :: "string \<Rightarrow> int \<Rightarrow> json \<Rightarrow> bool" where
  "theme_style c n theme =
     (case theme of
        JDict d \<Rightarrow> map_of d ''color'' = Some (JStr c) \<and> map_of d ''alpha'' = Some (JInt n)
                   \<and> hex_color c \<and> \<bar>n\<bar> < 2 ^ 1000
      | _ \<Rightarrow> False)"

text \<open>The value of two hexadecimal digits, as \<^verbatim>\<open>int(s, 16)\<close> reads them.\<close>

definition hex_byte :: "char \<Rightarrow> char \<Rightarrow> int" where
  "hex_byte h l =
     (case (hex_val h, hex_val l) of
        (Some a, Some b) \<Rightarrow> 16 * a + b
      | _ \<Rightarrow> 0)"

text \<open>
  The four texts that fill the holes of the f-strings for the theme style
  \<open>{color: c, alpha: n}\<close>.
\<close>

definition red_text :: "string \<Rightarrow> string" where
  "red_text c = py_str_int (hex_byte (c ! 1) (c ! 2))"

definition green_text :: "string \<Rightarrow> string" where
  "green_text c = py_str_int (hex_byte (c ! 3) (c ! 4))"

definition blue_text :: "string \<Rightarrow> string" where
  "blue_text c = py_str_int (hex_byte (c ! 5) (c ! 6))"

definition alpha_text :: "int \<Rightarrow> string" where
  "alpha_text n = float_repr (float_quotient n 100)"

section \<open>Migration: the claims\<close>

text \<open>
  C1. A legacy configuration, a dict with top-level keys \<open>color\<close> and \<open>alpha\<close> bound to
  \<open>C\<close> and \<open>A\<close>, is replaced by exactly
  \<open>{light_theme: {color: "#ffffff", alpha: A}, dark_theme: {color: C, alpha: A}}\<close>: the
  light colour is the constant white whatever \<open>C\<close> is. The new configuration is handed to
  the host's write operation in the same call (one more entry of \<open>written\<close>), and the
  notice is shown.
\<close>

theorem migrate_legacy:
  assumes "map_of c ''color'' = Some C" and "map_of c ''alpha'' = Some A"
  shows "migrate_config_if_needed \<lparr>config = Some c, written = ws, shown = ns\<rparr> =
           \<lparr>config = Some [(''light_theme'', JDict [(''color'', JStr ''#ffffff''), (''alpha'', A)]),
                           (''dark_theme'', JDict [(''color'', C), (''alpha'', A)])],
            written = ws @ [[(''light_theme'', JDict [(''color'', JStr ''#ffffff''), (''alpha'', A)]),
                             (''dark_theme'', JDict [(''color'', C), (''alpha'', A)])]],
            shown = ns @ [migration_notice]\<rparr>"
  using assms
  by (simp add: migrate_config_if_needed_def has_key_def dict_get_def migrated_config_def Let_def)

theorem migrate_legacy_witness:
  "migrate_config_if_needed
     \<lparr>config = Some [(''color'', JStr ''#112233''), (''alpha'', JInt 40)],
      written = [], shown = []\<rparr> =
   \<lparr>config = Some [(''light_theme'', JDict [(''color'', JStr ''#ffffff''), (''alpha'', JInt 40)]),
                   (''dark_theme'', JDict [(''color'', JStr ''#112233''), (''alpha'', JInt 40)])],
    written = [[(''light_theme'', JDict [(''color'', JStr ''#ffffff''), (''alpha'', JInt 40)]),
                (''dark_theme'', JDict [(''color'', JStr ''#112233''), (''alpha'', JInt 40)])]],
    shown = [migration_notice]\<rparr>"
  using migrate_legacy [of "[(''color'', JStr ''#112233''), (''alpha'', JInt 40)]"
                           "JStr ''#112233''" "JInt 40" "[]" "[]"]
  by simp

text \<open>
  C3, as stated: an absent configuration and an empty object both give the default
  configuration. For the empty object this fails: the method tests \<^verbatim>\<open>self.config is None\<close>,
  and \<open>{}\<close> is not None, so \<open>{}\<close> stays.
\<close>

theorem migrate_empty_counterexample:
  "config (migrate_config_if_needed \<lparr>config = Some [], written = [], shown = []\<rparr>)
     \<noteq> Some default_config"
  by (simp add: migrate_config_if_needed_def has_key_def default_config_def)

text \<open>
  C3, amended: an absent configuration (None) is replaced by the default
  \<open>{light_theme: {color: "#ffffff", alpha: 15}, dark_theme: {color: "#000000", alpha: 30}}\<close>
  with no write and no notice; an empty object is passed through as it is, also with no
  write and no notice.
\<close>

theorem migrate_absent_or_empty:
  "migrate_config_if_needed \<lparr>config = None, written = ws, shown = ns\<rparr> =
     \<lparr>config = Some [(''light_theme'', JDict [(''color'', JStr ''#ffffff''), (''alpha'', JInt 15)]),
                     (''dark_theme'', JDict [(''color'', JStr ''#000000''), (''alpha'', JInt 30)])],
      written = ws, shown = ns\<rparr>
   \<and> migrate_config_if_needed \<lparr>config = Some [], written = ws, shown = ns\<rparr> =
     \<lparr>config = Some [], written = ws, shown = ns\<rparr>
   \<and> load_and_migrate None =
     \<lparr>config = Some default_config, written = [], shown = []\<rparr>"
  by (simp add: migrate_config_if_needed_def has_key_def default_config_def load_and_migrate_def)

text \<open>
  C6. A configuration that is present and does not have both top-level keys \<open>color\<close> and
  \<open>alpha\<close> comes back unchanged, with nothing written and nothing shown; so migrating
  the result of a migration changes nothing, whatever the first migration started from.
\<close>

lemma migrate_new_shape:
  "\<not> (has_key ''color'' c \<and> has_key ''alpha'' c) \<Longrightarrow>
   config ov = Some c \<Longrightarrow> migrate_config_if_needed ov = ov"
  by (auto simp: migrate_config_if_needed_def)

lemma migrate_result_new_shape:
  "\<exists>c. config (migrate_config_if_needed ov) = Some c
       \<and> \<not> (has_key ''color'' c \<and> has_key ''alpha'' c)"
  by (cases "config ov")
     (auto simp: migrate_config_if_needed_def default_config_def migrated_config_def
        has_key_def Let_def)

theorem migrate_idempotent:
  assumes "\<not> (has_key ''color'' c \<and> has_key ''alpha'' c)"
  shows "migrate_config_if_needed \<lparr>config = Some c, written = ws, shown = ns\<rparr> =
           \<lparr>config = Some c, written = ws, shown = ns\<rparr>
         \<and> migrate_config_if_needed (migrate_config_if_needed ov) = migrate_config_if_needed ov"
proof
  show "migrate_config_if_needed \<lparr>config = Some c, written = ws, shown = ns\<rparr> =
          \<lparr>config = Some c, written = ws, shown = ns\<rparr>"
    using assms by (simp add: migrate_new_shape)
next
  obtain c' where "config (migrate_config_if_needed ov) = Some c'"
    and "\<not> (has_key ''color'' c' \<and> has_key ''alpha'' c')"
    using migrate_result_new_shape by blast
  then show "migrate_config_if_needed (migrate_config_if_needed ov) = migrate_config_if_needed ov"
    by (rule migrate_new_shape [rotated])
qed

theorem migrate_idempotent_witness:
  "\<not> (has_key ''color'' [(''light_theme'', JDict []), (''color'', JStr ''#123456'')]
       \<and> has_key ''alpha'' [(''light_theme'', JDict []), (''color'', JStr ''#123456'')])
   \<and> migrate_config_if_needed
        \<lparr>config = Some [(''light_theme'', JDict []), (''color'', JStr ''#123456'')],
         written = [], shown = []\<rparr> =
      \<lparr>config = Some [(''light_theme'', JDict []), (''color'', JStr ''#123456'')],
       written = [], shown = []\<rparr>
   \<and> migrate_config_if_needed
        (migrate_config_if_needed
           \<lparr>config = Some [(''color'', JStr ''#123456''), (''alpha'', JInt 40)],
            written = [], shown = []\<rparr>) =
      migrate_config_if_needed
        \<lparr>config = Some [(''color'', JStr ''#123456''), (''alpha'', JInt 40)],
         written = [], shown = []\<rparr>"
proof -
  have h: "\<not> (has_key ''color'' [(''light_theme'', JDict []), (''color'', JStr ''#123456'')]
              \<and> has_key ''alpha'' [(''light_theme'', JDict []), (''color'', JStr ''#123456'')])"
    by (simp add: has_key_def)
  show ?thesis
    using h migrate_idempotent [OF h, of "[]" "[]"
      "\<lparr>config = Some [(''color'', JStr ''#123456''), (''alpha'', JInt 40)],
        written = [], shown = []\<rparr>"]
    by simp
qed

section \<open>Facts about the built-ins\<close>

lemma hex_val_not_special:
  assumes "hex_val c = Some v"
  shows "\<not> py_isspace c" and "c \<noteq> CHR ''-''" and "c \<noteq> CHR ''+''" and "c \<noteq> CHR ''_''"
    and "c \<noteq> CHR ''x''" and "c \<noteq> CHR ''X''"
  using assms by (auto simp: hex_val_def py_isspace_def split: if_splits)

lemma py_int16_two_digits:
  assumes "hex_val h = Some a" and "hex_val l = Some b"
  shows "py_int16 [h, l] = Some (16 * a + b)"
  using assms hex_val_not_special [OF assms(1)] hex_val_not_special [OF assms(2)]
  by (simp add: py_int16_def py_strip_def)

lemma hex_color_shape:
  assumes "hex_color c"
  obtains p h1 l1 h2 l2 h3 l3 where "c = [p, h1, l1, h2, l2, h3, l3]"
    and "hex_val h1 \<noteq> None" and "hex_val l1 \<noteq> None" and "hex_val h2 \<noteq> None"
    and "hex_val l2 \<noteq> None" and "hex_val h3 \<noteq> None" and "hex_val l3 \<noteq> None"
proof -
  from assms have len: "length c = 7" by (simp add: hex_color_def)
  then obtain p h1 l1 h2 l2 h3 l3 where c: "c = [p, h1, l1, h2, l2, h3, l3]"
    by (auto simp: length_Suc_conv eval_nat_numeral)
  with assms show thesis
    by (intro that [OF c]) (simp_all add: hex_color_def)
qed

lemma channel_hex_color:
  assumes "hex_color c"
  shows "channel 1 3 (JStr c) = Inr (hex_byte (c ! 1) (c ! 2))"
    and "channel 3 5 (JStr c) = Inr (hex_byte (c ! 3) (c ! 4))"
    and "channel 5 7 (JStr c) = Inr (hex_byte (c ! 5) (c ! 6))"
proof -
  from assms obtain p h1 l1 h2 l2 h3 l3 where c: "c = [p, h1, l1, h2, l2, h3, l3]"
    and h: "hex_val h1 \<noteq> None" "hex_val l1 \<noteq> None" "hex_val h2 \<noteq> None"
           "hex_val l2 \<noteq> None" "hex_val h3 \<noteq> None" "hex_val l3 \<noteq> None"
    by (rule hex_color_shape)
  from h obtain a1 b1 a2 b2 a3 b3 where v:
    "hex_val h1 = Some a1" "hex_val l1 = Some b1" "hex_val h2 = Some a2"
    "hex_val l2 = Some b2" "hex_val h3 = Some a3" "hex_val l3 = Some b3"
    by auto
  show "channel 1 3 (JStr c) = Inr (hex_byte (c ! 1) (c ! 2))"
    using py_int16_two_digits [OF v(1) v(2)] v
    by (simp add: channel_def py_slice_def c hex_byte_def)
  show "channel 3 5 (JStr c) = Inr (hex_byte (c ! 3) (c ! 4))"
    using py_int16_two_digits [OF v(3) v(4)] v
    by (simp add: channel_def py_slice_def c hex_byte_def)
  show "channel 5 7 (JStr c) = Inr (hex_byte (c ! 5) (c ! 6))"
    using py_int16_two_digits [OF v(5) v(6)] v
    by (simp add: channel_def py_slice_def c hex_byte_def)
qed

text \<open>No integer below \<open>2\<^sup>1\<^sup>0\<^sup>0\<^sup>0\<close> in absolute value overflows when divided by 100.\<close>

lemma ndigits_pos: "1 \<le> ndigits base n"
proof (induction base n rule: ndigits.induct)
  case (1 base n)
  show ?case
  proof (cases "n < base \<or> base < 2")
    case True
    then show ?thesis by (subst ndigits.simps) simp
  next
    case False
    with 1 have "1 \<le> ndigits base (n div base)" by simp
    with False show ?thesis by (subst ndigits.simps) simp
  qed
qed

lemma ndigits_2_bound: "a < 2 ^ k \<Longrightarrow> ndigits 2 a \<le> max 1 (int k)"
proof (induction k arbitrary: a)
  case 0
  then show ?case by (subst ndigits.simps) simp
next
  case (Suc k)
  show ?case
  proof (cases "a < 2")
    case True
    then show ?thesis by (subst ndigits.simps) simp
  next
    case False
    from Suc.prems have "a div 2 < 2 ^ k" by simp
    then have "ndigits 2 (a div 2) \<le> max 1 (int k)" by (rule Suc.IH)
    moreover from False Suc.prems have "1 \<le> k"
      by (cases k) auto
    ultimately show ?thesis using False by (subst ndigits.simps) simp
  qed
qed

lemma nearest_double_expo:
  assumes "a < 2 ^ 1000"
  shows "snd (nearest_double a b) \<le> 971"
proof -
  have "ndigits 2 a \<le> 1000" using ndigits_2_bound [OF assms] by simp
  moreover have "1 \<le> ndigits 2 b" by (rule ndigits_pos)
  ultimately have "ilog2_ratio a b \<le> 999"
    by (simp add: ilog2_ratio_def Let_def)
  then show ?thesis
    by (simp add: nearest_double_def Let_def)
qed

lemma int_truediv_100:
  assumes "\<bar>n\<bar> < 2 ^ 1000"
  shows "int_truediv n 100 = Inr (float_quotient n 100)"
  using nearest_double_expo [OF assms, of 100]
  by (simp add: int_truediv_def float_quotient_def split_beta Let_def)

text \<open>The characters of the text of an integer and of a float.\<close>

lemma digits10_chars: "set (digits10 n) \<subseteq> set ''0123456789''"
proof (induction n rule: digits10.induct)
  case (1 n)
  have nth: "''0123456789'' ! k \<in> set ''0123456789''" if "k < 10" for k
    using that nth_mem [of k "''0123456789''"] by simp
  show ?case
  proof (cases "n < 10")
    case True
    then have "nat n < 10" by simp
    then show ?thesis using nth [of "nat n"] True by (subst digits10.simps) simp
  next
    case False
    then have "nat (n mod 10) < 10" by simp
    with 1 False nth [of "nat (n mod 10)"] show ?thesis
      by (subst digits10.simps) simp
  qed
qed

lemma digits10_nonempty: "digits10 n \<noteq> []"
  by (subst digits10.simps) simp

lemma py_str_int_chars: "set (py_str_int n) \<subseteq> set ''-0123456789''"
proof -
  define S where "S = set ''-0123456789''"
  have m: "CHR ''-'' \<in> S" by (simp add: S_def)
  have "set ''0123456789'' \<subseteq> S" by (simp add: S_def)
  then have d: "set (digits10 k) \<subseteq> S" for k
    using digits10_chars [of k] by (rule order_trans [rotated])
  have "set (py_str_int n) \<subseteq> S"
  proof (cases "n < 0")
    case True
    then have "set (py_str_int n) = insert (CHR ''-'') (set (digits10 (- n)))"
      by (simp add: py_str_int_def)
    with m d [of "- n"] show ?thesis by simp
  next
    case False
    then have "set (py_str_int n) = set (digits10 n)"
      by (simp add: py_str_int_def)
    with d [of n] show ?thesis by simp
  qed
  then show ?thesis by (simp only: S_def)
qed

lemma py_str_int_nonempty: "py_str_int n \<noteq> []"
  by (simp add: py_str_int_def digits10_nonempty)

lemma float_digits_chars:
  assumes "set ds \<subseteq> set ''0123456789''"
  shows "set (float_digits ds K) \<subseteq> set ''-+.e0123456789''"
proof -
  define S where "S = set ''-+.e0123456789''"
  have lit: "CHR ''-'' \<in> S" "CHR ''+'' \<in> S" "CHR ''.'' \<in> S" "CHR ''e'' \<in> S" "CHR ''0'' \<in> S"
    by (simp_all add: S_def)
  have dig: "set ''0123456789'' \<subseteq> S" by (simp add: S_def)
  have ds: "set ds \<subseteq> S" using assms dig by (rule order_trans)
  have t: "set (take k ds) \<subseteq> S" for k
    using set_take_subset [of k ds] ds by (rule order_trans)
  have d: "set (drop k ds) \<subseteq> S" for k
    using set_drop_subset [of k ds] ds by (rule order_trans)
  have e: "set (digits10 n) \<subseteq> S" for n
    using digits10_chars [of n] dig by (rule order_trans)
  have r: "set (replicate k (CHR ''0'')) \<subseteq> S" for k
    using lit by (auto simp: set_replicate_conv_if)
  have "set (float_digits ds K) \<subseteq> S"
  proof (cases "K \<le> - 4 \<or> 16 < K")
    case True
    then have "set (float_digits ds K) \<subseteq>
        set (take 1 ds) \<union> set (drop 1 ds) \<union> set (digits10 \<bar>K - 1\<bar>)
          \<union> {CHR ''.'', CHR ''e'', CHR ''-'', CHR ''+'', CHR ''0''}"
      by (auto simp: float_digits_def Let_def)
    moreover have "set (take 1 ds) \<union> set (drop 1 ds) \<union> set (digits10 \<bar>K - 1\<bar>)
          \<union> {CHR ''.'', CHR ''e'', CHR ''-'', CHR ''+'', CHR ''0''} \<subseteq> S"
      using t [of 1] d [of 1] e [of "\<bar>K - 1\<bar>"] lit by simp
    ultimately show ?thesis by (rule order_trans)
  next
    case False
    then have "set (float_digits ds K) \<subseteq>
        set ds \<union> set (take (nat K) ds) \<union> set (drop (nat K) ds)
          \<union> set (replicate (nat (- K)) (CHR ''0''))
          \<union> set (replicate (nat K - length ds) (CHR ''0''))
          \<union> {CHR ''.'', CHR ''0''}"
      by (auto simp: float_digits_def)
    moreover have "set ds \<union> set (take (nat K) ds) \<union> set (drop (nat K) ds)
          \<union> set (replicate (nat (- K)) (CHR ''0''))
          \<union> set (replicate (nat K - length ds) (CHR ''0''))
          \<union> {CHR ''.'', CHR ''0''} \<subseteq> S"
      using ds t [of "nat K"] d [of "nat K"] r [of "nat (- K)"] r [of "nat K - length ds"] lit
      by simp
    ultimately show ?thesis by (rule order_trans)
  qed
  then show ?thesis by (simp only: S_def)
qed

lemma float_digits_nonempty: "float_digits ds K \<noteq> []"
  by (simp add: float_digits_def Let_def)

lemma float_repr_chars: "set (float_repr x) \<subseteq> set ''-+.e0123456789''"
proof -
  define S where "S = set ''-+.e0123456789''"
  have lit: "CHR ''-'' \<in> S" "CHR ''.'' \<in> S" "CHR ''0'' \<in> S"
    by (simp_all add: S_def)
  have fd: "set (float_digits (digits10 k) K) \<subseteq> S" for k K
    unfolding S_def by (rule float_digits_chars) (rule digits10_chars)
  have "set (float_repr x) \<subseteq> S"
  proof (cases "mant x = 0")
    case True
    then have "set (float_repr x) \<subseteq> {CHR ''-'', CHR ''.'', CHR ''0''}"
      by (simp add: float_repr_def)
    moreover have "{CHR ''-'', CHR ''.'', CHR ''0''} \<subseteq> S" using lit by simp
    ultimately show ?thesis by (rule order_trans)
  next
    case False
    obtain c s where cs: "shortest_digits (mant x) (expo x) = (c, s)"
      by (cases "shortest_digits (mant x) (expo x)")
    from False cs have "set (float_repr x) \<subseteq>
        insert (CHR ''-'') (set (float_digits (digits10 (strip_zeros c)) (s + ndigits 10 c)))"
      by (auto simp: float_repr_def)
    moreover have "insert (CHR ''-'')
        (set (float_digits (digits10 (strip_zeros c)) (s + ndigits 10 c))) \<subseteq> S"
      using lit fd [of "strip_zeros c" "s + ndigits 10 c"] by simp
    ultimately show ?thesis by (rule order_trans)
  qed
  then show ?thesis by (simp only: S_def)
qed

lemma float_repr_nonempty: "float_repr x \<noteq> []"
  by (simp add: float_repr_def split_beta float_digits_nonempty)

section \<open>Facts about texts\<close>

lemma starts_with_iff: "starts_with pat s \<longleftrightarrow> (\<exists>ss. s = pat @ ss)"
  by (induction pat s rule: starts_with.induct) auto

lemma contains_text_iff: "contains_text pat s \<longleftrightarrow> (\<exists>ps ss. s = ps @ pat @ ss)"
proof (induction s)
  case Nil
  then show ?case by auto
next
  case (Cons c cs)
  show ?case
  proof
    assume "contains_text pat (c # cs)"
    then consider "starts_with pat (c # cs)" | "contains_text pat cs"
      by (auto split: if_splits)
    then show "\<exists>ps ss. c # cs = ps @ pat @ ss"
    proof cases
      case 1
      then obtain ss where "c # cs = pat @ ss" by (auto simp: starts_with_iff)
      then have "c # cs = [] @ pat @ ss" by simp
      then show ?thesis by blast
    next
      case 2
      with Cons obtain ps ss where "cs = ps @ pat @ ss" by auto
      then have "c # cs = (c # ps) @ pat @ ss" by simp
      then show ?thesis by blast
    qed
  next
    assume "\<exists>ps ss. c # cs = ps @ pat @ ss"
    then obtain ps ss where eq: "c # cs = ps @ pat @ ss" by blast
    show "contains_text pat (c # cs)"
    proof (cases ps)
      case Nil
      with eq have "starts_with pat (c # cs)" by (auto simp: starts_with_iff)
      then show ?thesis by simp
    next
      case (Cons p ps')
      with eq have "cs = ps' @ pat @ ss" by simp
      with Cons.IH have "contains_text pat cs" by blast
      then show ?thesis by simp
    qed
  qed
qed

lemma contains_text_appendI:
  "contains_text pat s \<Longrightarrow> contains_text pat (pre @ s @ post)"
proof -
  assume "contains_text pat s"
  then obtain ps ss where "s = ps @ pat @ ss" by (auto simp: contains_text_iff)
  then have "pre @ s @ post = (pre @ ps) @ pat @ (ss @ post)" by simp
  then show ?thesis unfolding contains_text_iff by blast
qed

lemma starts_with_append_other:
  "y \<notin> set pat \<Longrightarrow> starts_with pat (xs @ y # ys) = starts_with pat xs"
  by (induction pat xs rule: starts_with.induct) auto

lemma count_text_append:
  "y \<notin> set pat \<Longrightarrow> count_text pat (xs @ y # ys) = count_text pat xs + count_text pat (y # ys)"
proof (induction xs)
  case Nil
  then show ?case by simp
next
  case (Cons x xs)
  have "starts_with pat (x # xs @ y # ys) = starts_with pat (x # xs)"
    using starts_with_append_other [OF Cons.prems, of "x # xs" ys] by simp
  with Cons show ?case by simp
qed

lemma count_text_skip:
  "p \<notin> set ys \<Longrightarrow> count_text (p # ps) (ys @ zs) = count_text (p # ps) zs"
  by (induction ys) auto

lemma contains_text_append:
  assumes "y \<notin> set pat" and "pat \<noteq> []"
  shows "contains_text pat (xs @ y # ys) \<longleftrightarrow> contains_text pat xs \<or> contains_text pat (y # ys)"
proof (induction xs)
  case Nil
  from assms show ?case by simp
next
  case (Cons x xs)
  have "starts_with pat (x # xs @ y # ys) = starts_with pat (x # xs)"
    using starts_with_append_other [OF assms(1), of "x # xs" ys] by simp
  with Cons show ?case by simp
qed

text \<open>
  A pattern without a line break lies within one line: it occurs in a text of lines if it
  occurs in one of them, and it starts as often as in all of them together.
\<close>

lemma contains_text_nl_lines:
  assumes "CHR 0x0A \<notin> set pat" and "pat \<noteq> []"
  shows "contains_text pat (nl_lines ls) \<longleftrightarrow> list_ex (contains_text pat) ls"
proof (induction ls)
  case Nil
  from assms show ?case by simp
next
  case (Cons l ls)
  from assms obtain p ps where pat: "pat = p # ps" and "p \<noteq> CHR 0x0A" by (cases pat) auto
  then have "contains_text pat (nl_lines (l # ls)) \<longleftrightarrow> contains_text pat (l @ nl_lines ls)"
    by simp
  also have "\<dots> \<longleftrightarrow> contains_text pat l \<or> contains_text pat (nl_lines ls)"
  proof (cases ls)
    case Nil
    then show ?thesis using assms by simp
  next
    case tail: (Cons m ms)
    then show ?thesis using contains_text_append [OF assms, of l "m @ nl_lines ms"] by simp
  qed
  finally show ?case using Cons by simp
qed

lemma count_text_nl_lines:
  assumes "CHR 0x0A \<notin> set (p # ps)"
  shows "count_text (p # ps) (nl_lines ls) = sum_list (map (count_text (p # ps)) ls)"
proof (induction ls)
  case Nil
  show ?case by simp
next
  case (Cons l ls)
  from assms have p: "p \<noteq> CHR 0x0A" by auto
  then have "count_text (p # ps) (nl_lines (l # ls)) = count_text (p # ps) (l @ nl_lines ls)"
    by simp
  also have "\<dots> = count_text (p # ps) l + count_text (p # ps) (nl_lines ls)"
  proof (cases ls)
    case Nil
    then show ?thesis by simp
  next
    case tail: (Cons m ms)
    then show ?thesis using count_text_append [OF assms, of l "m @ nl_lines ms"] by simp
  qed
  finally show ?case using Cons by simp
qed

text \<open>
  A line with four holes filled by texts that share no character with the pattern: the
  pattern starts as often as in the five fixed pieces together. Each piece after the
  first starts with a character that is not in the pattern.
\<close>

lemma count_text_template:
  assumes r: "r \<noteq> []" "set r \<inter> set (p # ps) = {}"
    and g: "g \<noteq> []" "set g \<inter> set (p # ps) = {}"
    and b: "b \<noteq> []" "set b \<inter> set (p # ps) = {}"
    and a: "a \<noteq> []" "set a \<inter> set (p # ps) = {}"
    and l: "l1 \<notin> set (p # ps)" "l2 \<notin> set (p # ps)" "l3 \<notin> set (p # ps)" "l4 \<notin> set (p # ps)"
  shows "count_text (p # ps) (L0 @ r @ (l1 # L1) @ g @ (l2 # L2) @ b @ (l3 # L3) @ a @ (l4 # L4))
         = count_text (p # ps) L0 + count_text (p # ps) (l1 # L1) + count_text (p # ps) (l2 # L2)
           + count_text (p # ps) (l3 # L3) + count_text (p # ps) (l4 # L4)"
proof -
  have step: "count_text (p # ps) (X @ y @ (c # Y))
              = count_text (p # ps) X + count_text (p # ps) (c # Y)"
    if "y \<noteq> []" "set y \<inter> set (p # ps) = {}" "c \<notin> set (p # ps)" for X y c Y
  proof -
    from that obtain y0 ys where y: "y = y0 # ys" by (cases y) auto
    with that have y0: "y0 \<notin> set (p # ps)" by auto
    from that have py: "p \<notin> set y" by auto
    have "count_text (p # ps) (X @ y @ (c # Y))
          = count_text (p # ps) X + count_text (p # ps) (y @ (c # Y))"
      using count_text_append [OF y0, of X "ys @ (c # Y)"] by (simp add: y)
    also have "count_text (p # ps) (y @ (c # Y)) = count_text (p # ps) (c # Y)"
      by (rule count_text_skip [OF py])
    finally show ?thesis .
  qed
  have 4: "count_text (p # ps) ((L0 @ r @ (l1 # L1) @ g @ (l2 # L2) @ b @ (l3 # L3)) @ a @ (l4 # L4))
           = count_text (p # ps) (L0 @ r @ (l1 # L1) @ g @ (l2 # L2) @ b @ (l3 # L3))
             + count_text (p # ps) (l4 # L4)"
    by (rule step [OF a l(4)])
  have 3: "count_text (p # ps) ((L0 @ r @ (l1 # L1) @ g @ (l2 # L2)) @ b @ (l3 # L3))
           = count_text (p # ps) (L0 @ r @ (l1 # L1) @ g @ (l2 # L2))
             + count_text (p # ps) (l3 # L3)"
    by (rule step [OF b l(3)])
  have 2: "count_text (p # ps) ((L0 @ r @ (l1 # L1)) @ g @ (l2 # L2))
           = count_text (p # ps) (L0 @ r @ (l1 # L1)) + count_text (p # ps) (l2 # L2)"
    by (rule step [OF g l(2)])
  have 1: "count_text (p # ps) (L0 @ r @ (l1 # L1))
           = count_text (p # ps) L0 + count_text (p # ps) (l1 # L1)"
    by (rule step [OF r l(1)])
  from 1 2 3 4 show ?thesis by simp
qed

section \<open>The renderers: the texts\<close>

lemma theme_rgba_style:
  assumes "theme_style c n theme"
  shows "theme_rgba theme =
           Inr (hex_byte (c ! 1) (c ! 2), hex_byte (c ! 3) (c ! 4), hex_byte (c ! 5) (c ! 6),
                float_quotient n 100)"
proof -
  from assms obtain d where theme: "theme = JDict d"
    and col: "map_of d ''color'' = Some (JStr c)" and al: "map_of d ''alpha'' = Some (JInt n)"
    and hex: "hex_color c" and bound: "\<bar>n\<bar> < 2 ^ 1000"
    by (cases theme) (auto simp: theme_style_def)
  show ?thesis
    using channel_hex_color [OF hex] int_truediv_100 [OF bound] col al
    by (simp add: theme theme_rgba_def dict_get_def then_do_def alpha_fraction_def)
qed

lemma inject_overlay_style:
  assumes "get_current_theme_config night ov = Inr theme" and "theme_style c n theme"
  shows "inject_overlay night ov head =
           Inr (head @ background_css (red_text c) (green_text c) (blue_text c) (alpha_text n))"
  using assms(1) theme_rgba_style [OF assms(2)]
  by (simp add: inject_overlay_def then_do_def red_text_def green_text_def blue_text_def
        alpha_text_def)

lemma disjoint_subset: "A \<subseteq> B \<Longrightarrow> B \<inter> C = {} \<Longrightarrow> A \<inter> C = {}"
  by auto

lemma hole_texts:
  shows "red_text c \<noteq> []" and "green_text c \<noteq> []" and "blue_text c \<noteq> []"
    and "alpha_text n \<noteq> []"
    and "set (red_text c) \<inter> set ''html'' = {}" and "set (green_text c) \<inter> set ''html'' = {}"
    and "set (blue_text c) \<inter> set ''html'' = {}" and "set (alpha_text n) \<inter> set ''html'' = {}"
proof -
  have d: "set ''-0123456789'' \<inter> set ''html'' = {}" by simp
  have f: "set ''-+.e0123456789'' \<inter> set ''html'' = {}" by simp
  have i: "set (py_str_int k) \<inter> set ''html'' = {}" for k
    using py_str_int_chars [of k] d by (rule disjoint_subset)
  show "red_text c \<noteq> []" "green_text c \<noteq> []" "blue_text c \<noteq> []"
    by (simp_all add: red_text_def green_text_def blue_text_def py_str_int_nonempty)
  show "alpha_text n \<noteq> []" by (simp add: alpha_text_def float_repr_nonempty)
  show "set (red_text c) \<inter> set ''html'' = {}" "set (green_text c) \<inter> set ''html'' = {}"
    "set (blue_text c) \<inter> set ''html'' = {}"
    unfolding red_text_def green_text_def blue_text_def by (rule i)+
  show "set (alpha_text n) \<inter> set ''html'' = {}"
    unfolding alpha_text_def
    using float_repr_chars f by (rule disjoint_subset)
qed

lemma count_html_rgba_line:
  assumes "r \<noteq> []" "set r \<inter> set ''html'' = {}" "g \<noteq> []" "set g \<inter> set ''html'' = {}"
    and "b \<noteq> []" "set b \<inter> set ''html'' = {}" "a \<noteq> []" "set a \<inter> set ''html'' = {}"
  shows "count_text ''html''
           (''            background-color: rgba('' @ r @ '', '' @ g @ '', '' @ b @ '', '' @ a
              @ '') !important;'') = 0"
  using assms by (subst count_text_template) simp_all

lemma count_html_background_css:
  assumes "r \<noteq> []" "set r \<inter> set ''html'' = {}" "g \<noteq> []" "set g \<inter> set ''html'' = {}"
    and "b \<noteq> []" "set b \<inter> set ''html'' = {}" "a \<noteq> []" "set a \<inter> set ''html'' = {}"
  shows "count_text ''html'' (background_css r g b a) = 1"
proof -
  have nl: "CHR 0x0A \<notin> set ''html''" by simp
  show ?thesis
    unfolding background_css_def
    by (subst count_text_nl_lines [OF nl])
       (simp only: list.map sum_list.Cons sum_list.Nil count_html_rgba_line [OF assms], simp)
qed

lemma html_rule_in_lines:
  "contains_text (s2 @ NL @ l3 @ NL @ l4) (nl_lines (l1 # (i2 @ s2) # l3 # l4 # rest))"
proof -
  have "nl_lines (l1 # (i2 @ s2) # l3 # l4 # rest)
        = (NL @ l1 @ NL @ i2) @ (s2 @ NL @ l3 @ NL @ l4) @ nl_lines rest"
    by simp
  then show ?thesis unfolding contains_text_iff by blast
qed

lemma html_rule_in_background_css:
  "contains_text
     (''html {'' @ NL
      @ (''            background-color: rgba('' @ r @ '', '' @ g @ '', '' @ b @ '', '' @ a
           @ '') !important;'') @ NL
      @ ''        }'')
     (background_css r g b a)"
proof -
  have eq: "''        html {'' = ''        '' @ ''html {''" by simp
  show ?thesis
    unfolding background_css_def eq by (rule html_rule_in_lines)
qed

lemma line_in_nl_lines:
  assumes "l \<in> set ls"
  shows "contains_text l (nl_lines ls)"
proof -
  from assms obtain xs ys where "ls = xs @ l # ys" by (auto simp: in_set_conv_decomp)
  moreover have "nl_lines (xs @ l # ys) = (nl_lines xs @ NL) @ l @ nl_lines ys"
    by (induction xs) auto
  ultimately show ?thesis unfolding contains_text_iff by blast
qed

section \<open>The renderers: the claims\<close>

text \<open>
  C2, as stated: for every theme style the block that \<^verbatim>\<open>inject_overlay\<close> appends
  contains the selector list of the specification word for word, with
  \<^verbatim>\<open>.congrats-container, .congrats, [id*="congrat"], [class*="congrat"]\<close> and
  \<^verbatim>\<open>.overview, [class*="overview"]\<close>. For the default dark theme
  \<open>{color: "#000000", alpha: 30}\<close> the block has neither: the code writes
  \<^verbatim>\<open>div[id*="congrat"]\<close>, \<^verbatim>\<open>div[class*="congrat"]\<close> and \<^verbatim>\<open>div[class*="overview"]\<close>.
\<close>

theorem inject_overlay_selectors_counterexample:
  \<open>inject_overlay True (load_and_migrate None) [] =
     Inr (background_css ''0'' ''0'' ''0'' ''0.3'')
   \<and> \<not> contains_text ''.congrats-container, .congrats, [id*="congrat"], [class*="congrat"]''
         (background_css ''0'' ''0'' ''0'' ''0.3'')
   \<and> \<not> contains_text ''.overview, [class*="overview"]''
         (background_css ''0'' ''0'' ''0'' ''0.3'')\<close>
proof -
  have cfg: "get_current_theme_config True (load_and_migrate None)
             = Inr (JDict [(''color'', JStr ''#000000''), (''alpha'', JInt 30)])"
    by (simp add: get_current_theme_config_def load_and_migrate_def migrate_config_if_needed_def
          default_config_def dict_get_def)
  have style: "theme_style ''#000000'' 30 (JDict [(''color'', JStr ''#000000''), (''alpha'', JInt 30)])"
    by (simp add: theme_style_def hex_color_def hex_val_def)
  have r: "red_text ''#000000'' = ''0''" "green_text ''#000000'' = ''0''"
    "blue_text ''#000000'' = ''0''"
    by code_simp+
  have a: "alpha_text 30 = ''0.3''" by code_simp
  have 1: "inject_overlay True (load_and_migrate None) [] =
             Inr (background_css ''0'' ''0'' ''0'' ''0.3'')"
    using inject_overlay_style [OF cfg style, of "[]"] by (simp add: r a)
  have 2: \<open>\<not> contains_text ''.congrats-container, .congrats, [id*="congrat"], [class*="congrat"]''
         (background_css ''0'' ''0'' ''0'' ''0.3'')\<close>
    unfolding background_css_def by (subst contains_text_nl_lines) simp_all
  have 3: \<open>\<not> contains_text ''.overview, [class*="overview"]''
         (background_css ''0'' ''0'' ''0'' ''0.3'')\<close>
    unfolding background_css_def by (subst contains_text_nl_lines) simp_all
  from 1 2 3 show ?thesis by (intro conjI)
qed

text \<open>
  C2, amended: for every theme style \<open>{color: c, alpha: n}\<close> of the current mode, whatever
  \<open>c\<close> and \<open>n\<close> are, \<^verbatim>\<open>inject_overlay\<close> appends to the head one style block in which
  \<^verbatim>\<open>html\<close> occurs exactly once, in the rule with the rgba background, and which has
  these rules word for word: \<^verbatim>\<open>body\<close>; \<^verbatim>\<open>#outer, #main, .main-webview\<close>; \<^verbatim>\<open>.card\<close>;
  \<^verbatim>\<open>.congrats-container, .congrats, div[id*="congrat"], div[class*="congrat"]\<close>;
  \<^verbatim>\<open>.overview, div[class*="overview"]\<close>; \<^verbatim>\<open>div:not([style*="background"])\<close>.
\<close>

theorem inject_overlay_style_block:
  assumes "get_current_theme_config night ov = Inr theme" and "theme_style c n theme"
  shows \<open>let r = red_text c; g = green_text c; b = blue_text c; a = alpha_text n;
             css = background_css r g b a
         in inject_overlay night ov head = Inr (head @ css)
            \<and> count_text ''html'' css = 1
            \<and> contains_text
                 (''html {'' @ NL
                  @ (''            background-color: rgba('' @ r @ '', '' @ g @ '', '' @ b @ '', ''
                       @ a @ '') !important;'') @ NL
                  @ ''        }'') css
            \<and> contains_text ''        body {'' css
            \<and> contains_text ''        #outer, #main, .main-webview {'' css
            \<and> contains_text ''        .card {'' css
            \<and> contains_text
                 ''        .congrats-container, .congrats, div[id*="congrat"], div[class*="congrat"] {''
                 css
            \<and> contains_text ''        .overview, div[class*="overview"] {'' css
            \<and> contains_text ''        div:not([style*="background"]) {'' css\<close>
proof -
  define r g b a where "r = red_text c" and "g = green_text c" and "b = blue_text c"
    and "a = alpha_text n"
  have 1: "inject_overlay night ov head = Inr (head @ background_css r g b a)"
    unfolding r_def g_def b_def a_def by (rule inject_overlay_style [OF assms])
  have 2: "count_text ''html'' (background_css r g b a) = 1"
    unfolding r_def g_def b_def a_def
    by (rule count_html_background_css) (rule hole_texts)+
  have 3: "contains_text
             (''html {'' @ NL
              @ (''            background-color: rgba('' @ r @ '', '' @ g @ '', '' @ b @ '', ''
                   @ a @ '') !important;'') @ NL
              @ ''        }'') (background_css r g b a)"
    by (rule html_rule_in_background_css)
  have 4: "contains_text ''        body {'' (background_css r g b a)"
    unfolding background_css_def by (rule line_in_nl_lines) simp
  have 5: "contains_text ''        #outer, #main, .main-webview {'' (background_css r g b a)"
    unfolding background_css_def by (rule line_in_nl_lines) simp
  have 6: "contains_text ''        .card {'' (background_css r g b a)"
    unfolding background_css_def by (rule line_in_nl_lines) simp
  have 7: \<open>contains_text
             ''        .congrats-container, .congrats, div[id*="congrat"], div[class*="congrat"] {''
             (background_css r g b a)\<close>
    unfolding background_css_def by (rule line_in_nl_lines) simp
  have 8: \<open>contains_text ''        .overview, div[class*="overview"] {'' (background_css r g b a)\<close>
    unfolding background_css_def by (rule line_in_nl_lines) simp
  have 9: \<open>contains_text ''        div:not([style*="background"]) {'' (background_css r g b a)\<close>
    unfolding background_css_def by (rule line_in_nl_lines) simp
  from 1 2 3 4 5 6 7 8 9 show ?thesis
    unfolding Let_def r_def g_def b_def a_def by (intro conjI)
qed

theorem inject_overlay_style_block_witness:
  \<open>get_current_theme_config False (load_and_migrate None) =
     Inr (JDict [(''color'', JStr ''#ffffff''), (''alpha'', JInt 15)])
   \<and> theme_style ''#ffffff'' 15 (JDict [(''color'', JStr ''#ffffff''), (''alpha'', JInt 15)])
   \<and> inject_overlay False (load_and_migrate None) ''<title>x</title>'' =
       Inr (''<title>x</title>''
            @ background_css (red_text ''#ffffff'') (green_text ''#ffffff'') (blue_text ''#ffffff'')
                (alpha_text 15))
   \<and> count_text ''html''
         (background_css (red_text ''#ffffff'') (green_text ''#ffffff'') (blue_text ''#ffffff'')
            (alpha_text 15)) = 1\<close>
proof -
  have cfg: "get_current_theme_config False (load_and_migrate None)
             = Inr (JDict [(''color'', JStr ''#ffffff''), (''alpha'', JInt 15)])"
    by (simp add: get_current_theme_config_def load_and_migrate_def migrate_config_if_needed_def
          default_config_def dict_get_def)
  have style: "theme_style ''#ffffff'' 15 (JDict [(''color'', JStr ''#ffffff''), (''alpha'', JInt 15)])"
    by (simp add: theme_style_def hex_color_def hex_val_def)
  show ?thesis
    using cfg style inject_overlay_style_block [OF cfg style, of "''<title>x</title>''"]
    by (simp only: Let_def)
qed

section \<open>True division gives the nearest float\<close>

lemma round_half_even_error:
  assumes "0 < b"
  shows "\<bar>2 * (round_half_even a b * b - a)\<bar> \<le> b"
proof -
  define d r where "d = a div b" and "r = a mod b"
  have a: "a = d * b + r" by (simp add: d_def r_def)
  have r: "0 \<le> r" "r < b" using assms by (simp_all add: r_def)
  consider "2 * r < b" | "b < 2 * r" | "2 * r = b" by linarith
  then show ?thesis
  proof cases
    case 1
    then have "round_half_even a b = d" by (simp add: round_half_even_def d_def r_def Let_def)
    with 1 r show ?thesis by (simp add: a)
  next
    case 2
    then have "round_half_even a b = d + 1" by (simp add: round_half_even_def d_def r_def Let_def)
    with 2 r show ?thesis by (simp add: a algebra_simps)
  next
    case 3
    then have "round_half_even a b = d \<or> round_half_even a b = d + 1"
      by (simp add: round_half_even_def d_def r_def Let_def)
    with 3 r show ?thesis by (auto simp: a algebra_simps)
  qed
qed

lemma round_half_even_real:
  assumes "0 < b"
  shows "\<bar>real_of_int (round_half_even a b) - real_of_int a / real_of_int b\<bar> \<le> 1 / 2"
proof -
  have "\<bar>2 * (round_half_even a b * b - a)\<bar> \<le> b" by (rule round_half_even_error [OF assms])
  then have "\<bar>real_of_int (2 * (round_half_even a b * b - a))\<bar> \<le> real_of_int b"
    by linarith
  then have "\<bar>2 * (real_of_int (round_half_even a b) * real_of_int b - real_of_int a)\<bar>
               \<le> real_of_int b"
    by simp
  moreover have "real_of_int (round_half_even a b) - real_of_int a / real_of_int b
        = (real_of_int (round_half_even a b) * real_of_int b - real_of_int a) / real_of_int b"
    using assms by (simp add: field_simps)
  ultimately show ?thesis using assms by (simp add: field_simps abs_if split: if_splits)
qed

lemma nearest_double_error:
  assumes "0 < a" and "0 < b"
  shows "\<bar>real_of_int (fst (nearest_double a b)) * 2 powi (snd (nearest_double a b))
           - real_of_int a / real_of_int b\<bar>
         \<le> 2 powi (snd (nearest_double a b)) / 2"
proof -
  define e where "e = max (ilog2_ratio a b - 52) (- 1074)"
  define m where "m = (if 0 \<le> e then round_half_even a (b * pow 2 e)
                       else round_half_even (a * pow 2 (- e)) b)"
  from assms have a0: "a \<noteq> 0" by simp
  have nd: "nearest_double a b = (if m = 2 ^ 53 then (2 ^ 52, e + 1) else (m, e))"
    by (simp only: nearest_double_def Let_def e_def m_def a0 if_False)
  have p: "(0::real) < 2 powi e" by simp
  have "\<bar>real_of_int m - (real_of_int a / real_of_int b) / 2 powi e\<bar> \<le> 1 / 2"
  proof (cases "0 \<le> e")
    case True
    then have pw: "real_of_int (pow 2 e) = 2 powi e"
      by (simp add: pow_def power_int_def)
    have "\<bar>real_of_int m - real_of_int a / real_of_int (b * pow 2 e)\<bar> \<le> 1 / 2"
      using True assms round_half_even_real [of "b * pow 2 e" a] by (simp add: m_def pow_def)
    then show ?thesis by (simp add: pw field_simps)
  next
    case False
    then have pw: "real_of_int (pow 2 (- e)) = 1 / 2 powi e"
      by (simp add: pow_def power_int_def field_simps)
    have "\<bar>real_of_int m - real_of_int (a * pow 2 (- e)) / real_of_int b\<bar> \<le> 1 / 2"
      using False assms round_half_even_real [of b "a * pow 2 (- e)"] by (simp add: m_def)
    then show ?thesis by (simp add: pw field_simps)
  qed
  then have "\<bar>real_of_int m - (real_of_int a / real_of_int b) / 2 powi e\<bar> * 2 powi e
               \<le> 1 / 2 * 2 powi e"
    by (intro mult_right_mono) simp_all
  moreover have "real_of_int m * 2 powi e - real_of_int a / real_of_int b
        = (real_of_int m - (real_of_int a / real_of_int b) / 2 powi e) * 2 powi e"
    by (simp add: field_simps)
  then have "\<bar>real_of_int m * 2 powi e - real_of_int a / real_of_int b\<bar>
        = \<bar>real_of_int m - (real_of_int a / real_of_int b) / 2 powi e\<bar> * 2 powi e"
    by (simp only: abs_mult) simp
  ultimately have main:
    "\<bar>real_of_int m * 2 powi e - real_of_int a / real_of_int b\<bar> \<le> 2 powi e / 2"
    by simp
  show ?thesis
  proof (cases "m = 2 ^ 53")
    case True
    have "(2::real) powi (e + 1) = 2 * 2 powi e" by (simp add: power_int_add)
    moreover from main p
    have "\<bar>real_of_int m * 2 powi e - real_of_int a / real_of_int b\<bar> \<le> 2 powi e"
      by linarith
    ultimately show ?thesis using True by (simp add: nd)
  next
    case False
    with main show ?thesis by (simp add: nd)
  qed
qed

lemma float_quotient_100_error:
  "\<bar>float_value (float_quotient n 100) - real_of_int n / 100\<bar>
     \<le> 2 powi (expo (float_quotient n 100)) / 2"
proof (cases "n = 0")
  case True
  then show ?thesis
    by (simp add: float_quotient_def nearest_double_def float_value_def)
next
  case False
  then have pos: "0 < \<bar>n\<bar>" by simp
  obtain m e where me: "nearest_double \<bar>n\<bar> 100 = (m, e)"
    by (cases "nearest_double \<bar>n\<bar> 100")
  from nearest_double_error [OF pos, of 100]
  have err: "\<bar>real_of_int m * 2 powi e - real_of_int \<bar>n\<bar> / 100\<bar> \<le> 2 powi e / 2"
    by (simp add: me)
  from me have me': "nearest_double \<bar>n\<bar> \<bar>100\<bar> = (m, e)" by simp
  have fq: "float_quotient n 100 = PyFloat (n < 0) m e"
    by (simp only: float_quotient_def me' Let_def) simp
  show ?thesis
  proof (cases "n < 0")
    case True
    then have "real_of_int \<bar>n\<bar> = - real_of_int n" by simp
    with err have "\<bar>real_of_int m * 2 powi e + real_of_int n / 100\<bar> \<le> 2 powi e / 2"
      by simp
    moreover have "\<bar>- (real_of_int m * 2 powi e) - real_of_int n / 100\<bar>
        = \<bar>real_of_int m * 2 powi e + real_of_int n / 100\<bar>"
      by (simp only: abs_minus_cancel [symmetric, of "real_of_int m * 2 powi e + real_of_int n / 100"])
    ultimately have "\<bar>- (real_of_int m * 2 powi e) - real_of_int n / 100\<bar> \<le> 2 powi e / 2"
      by simp
    with True show ?thesis by (simp add: fq float_value_def)
  next
    case False
    then have "real_of_int \<bar>n\<bar> = real_of_int n" by simp
    with err False show ?thesis by (simp add: fq float_value_def)
  qed
qed

lemma inject_finished_style:
  assumes "get_current_theme_config night ov = Inr theme" and "theme_style c n theme"
  shows "inject_finished_screen_style night ov w =
           Inr (web_eval
                  (finished_js_code (red_text c) (green_text c) (blue_text c) (alpha_text n))
                  (finished_js_stmts
                     (style_text_content (red_text c) (green_text c) (blue_text c) (alpha_text n)))
                  w)"
  using assms(1) theme_rgba_style [OF assms(2)]
  by (simp add: inject_finished_screen_style_def then_do_def red_text_def green_text_def
        blue_text_def alpha_text_def Let_def)

lemma inject_theme_style:
  assumes "get_current_theme_config night ov = Inr theme" and "theme_style c n theme"
  shows "inject_current_theme_style night ov (Some w) =
           Inr (Some (web_eval
                  (theme_js_code (red_text c) (green_text c) (blue_text c) (alpha_text n))
                  (theme_js_stmts
                     (style_text_content (red_text c) (green_text c) (blue_text c) (alpha_text n)))
                  w))"
  using assms(1) theme_rgba_style [OF assms(2)]
  by (simp add: inject_current_theme_style_def then_do_def red_text_def green_text_def
        blue_text_def alpha_text_def Let_def)

lemma rgba_in_style_text_content:
  "contains_text (''rgba('' @ r @ '', '' @ g @ '', '' @ b @ '', '' @ a @ '')'')
     (style_text_content r g b a)"
proof -
  have "style_text_content r g b a =
      (NL @ ''            html {'' @ NL @ ''                background-color: '')
      @ (''rgba('' @ r @ '', '' @ g @ '', '' @ b @ '', '' @ a @ '')'')
      @ ('' !important;''
         @ nl_lines [''            }'', ''            body {'',
                     ''                background-color: transparent !important;'',
                     ''            }'', ''        ''])"
    by (simp add: style_text_content_def)
  then show ?thesis unfolding contains_text_iff by blast
qed

lemma rgba_in_finished_js_code:
  "contains_text (''rgba('' @ r @ '', '' @ g @ '', '' @ b @ '', '' @ a @ '')'')
     (finished_js_code r g b a)"
  unfolding finished_js_code_def
  by (rule contains_text_appendI) (rule rgba_in_style_text_content)

text \<open>
  C5. For every theme style \<open>{color: c, alpha: n}\<close> the conversion reads \<^verbatim>\<open>color[1:3]\<close>,
  \<^verbatim>\<open>color[3:5]\<close> and \<^verbatim>\<open>color[5:7]\<close> as base-16 integers and takes \<^verbatim>\<open>alpha / 100\<close> as
  it comes: the fraction is the float nearest to \<open>n / 100\<close> whatever \<open>n\<close> is, also outside
  0..100 (150 gives 1.5 and -20 gives -0.2 in the text). The style
  \<open>{color: "#1a2b3c", alpha: 50}\<close> gives 26, 43, 60 and the float 0.5, and with the
  configuration \<open>{dark_theme: {color: "#000000", alpha: 30}}\<close> in dark mode the script of
  the finished screen contains \<^verbatim>\<open>rgba(0, 0, 0, 0.3)\<close>.
\<close>

theorem rgba_conversion:
  assumes "theme_style c n theme"
  shows "theme_rgba theme =
           Inr (hex_byte (c ! 1) (c ! 2), hex_byte (c ! 3) (c ! 4), hex_byte (c ! 5) (c ! 6),
                float_quotient n 100)
         \<and> py_int16 (py_slice 1 3 c) = Some (hex_byte (c ! 1) (c ! 2))
         \<and> py_int16 (py_slice 3 5 c) = Some (hex_byte (c ! 3) (c ! 4))
         \<and> py_int16 (py_slice 5 7 c) = Some (hex_byte (c ! 5) (c ! 6))
         \<and> \<bar>float_value (float_quotient n 100) - real_of_int n / 100\<bar>
             \<le> 2 powi (expo (float_quotient n 100)) / 2
         \<and> theme_rgba (JDict [(''color'', JStr ''#1a2b3c''), (''alpha'', JInt 50)]) =
             Inr (26, 43, 60, PyFloat False 4503599627370496 (- 53))
         \<and> float_value (PyFloat False 4503599627370496 (- 53)) = 1 / 2
         \<and> float_repr (PyFloat False 4503599627370496 (- 53)) = ''0.5''
         \<and> inject_finished_screen_style True
               \<lparr>config = Some [(''dark_theme'',
                                 JDict [(''color'', JStr ''#000000''), (''alpha'', JInt 30)])],
                written = [], shown = []\<rparr> w =
             Inr (web_eval (finished_js_code ''0'' ''0'' ''0'' ''0.3'')
                    (finished_js_stmts (style_text_content ''0'' ''0'' ''0'' ''0.3'')) w)
         \<and> contains_text ''rgba(0, 0, 0, 0.3)'' (finished_js_code ''0'' ''0'' ''0'' ''0.3'')
         \<and> alpha_text 150 = ''1.5''
         \<and> alpha_text (- 20) = ''-0.2''"
proof -
  from assms obtain d where "theme = JDict d" and hex: "hex_color c"
    by (cases theme) (auto simp: theme_style_def)
  have 1: "theme_rgba theme =
           Inr (hex_byte (c ! 1) (c ! 2), hex_byte (c ! 3) (c ! 4), hex_byte (c ! 5) (c ! 6),
                float_quotient n 100)"
    by (rule theme_rgba_style [OF assms])
  have 2: "py_int16 (py_slice 1 3 c) = Some (hex_byte (c ! 1) (c ! 2))"
    using channel_hex_color(1) [OF hex] by (auto simp: channel_def split: option.splits)
  have 3: "py_int16 (py_slice 3 5 c) = Some (hex_byte (c ! 3) (c ! 4))"
    using channel_hex_color(2) [OF hex] by (auto simp: channel_def split: option.splits)
  have 4: "py_int16 (py_slice 5 7 c) = Some (hex_byte (c ! 5) (c ! 6))"
    using channel_hex_color(3) [OF hex] by (auto simp: channel_def split: option.splits)
  have 5: "\<bar>float_value (float_quotient n 100) - real_of_int n / 100\<bar>
             \<le> 2 powi (expo (float_quotient n 100)) / 2"
    by (rule float_quotient_100_error)
  have s6: "theme_style ''#1a2b3c'' 50 (JDict [(''color'', JStr ''#1a2b3c''), (''alpha'', JInt 50)])"
    by (simp add: theme_style_def hex_color_def hex_val_def)
  have h6: "hex_byte (''#1a2b3c'' ! 1) (''#1a2b3c'' ! 2) = 26"
    "hex_byte (''#1a2b3c'' ! 3) (''#1a2b3c'' ! 4) = 43"
    "hex_byte (''#1a2b3c'' ! 5) (''#1a2b3c'' ! 6) = 60"
    by (simp_all add: hex_byte_def hex_val_def)
  have q6: "float_quotient 50 100 = PyFloat False 4503599627370496 (- 53)"
    by code_simp
  have 6: "theme_rgba (JDict [(''color'', JStr ''#1a2b3c''), (''alpha'', JInt 50)]) =
             Inr (26, 43, 60, PyFloat False 4503599627370496 (- 53))"
    using theme_rgba_style [OF s6] by (simp only: h6 q6)
  have 7: "float_value (PyFloat False 4503599627370496 (- 53)) = 1 / 2"
    by (simp add: float_value_def power_int_minus)
  have 8: "float_repr (PyFloat False 4503599627370496 (- 53)) = ''0.5''"
    by code_simp
  have cfg: "get_current_theme_config True
               \<lparr>config = Some [(''dark_theme'',
                                 JDict [(''color'', JStr ''#000000''), (''alpha'', JInt 30)])],
                written = [], shown = []\<rparr>
             = Inr (JDict [(''color'', JStr ''#000000''), (''alpha'', JInt 30)])"
    by (simp add: get_current_theme_config_def dict_get_def)
  have s9: "theme_style ''#000000'' 30 (JDict [(''color'', JStr ''#000000''), (''alpha'', JInt 30)])"
    by (simp add: theme_style_def hex_color_def hex_val_def)
  have r9: "red_text ''#000000'' = ''0''" "green_text ''#000000'' = ''0''"
    "blue_text ''#000000'' = ''0''"
    by code_simp+
  have a9: "alpha_text 30 = ''0.3''" by code_simp
  have 9: "inject_finished_screen_style True
               \<lparr>config = Some [(''dark_theme'',
                                 JDict [(''color'', JStr ''#000000''), (''alpha'', JInt 30)])],
                written = [], shown = []\<rparr> w =
             Inr (web_eval (finished_js_code ''0'' ''0'' ''0'' ''0.3'')
                    (finished_js_stmts (style_text_content ''0'' ''0'' ''0'' ''0.3'')) w)"
    using inject_finished_style [OF cfg s9, of w] by (simp only: r9 a9)
  have 10: "contains_text ''rgba(0, 0, 0, 0.3)'' (finished_js_code ''0'' ''0'' ''0'' ''0.3'')"
    using rgba_in_finished_js_code [of "''0''" "''0''" "''0''" "''0.3''"] by simp
  have 11: "alpha_text 150 = ''1.5''" by code_simp
  have 12: "alpha_text (- 20) = ''-0.2''" by code_simp
  from 1 2 3 4 5 6 7 8 9 10 11 12 show ?thesis by (intro conjI)
qed

theorem rgba_conversion_witness:
  "theme_style ''#1a2b3c'' 50 (JDict [(''color'', JStr ''#1a2b3c''), (''alpha'', JInt 50)])
   \<and> theme_rgba (JDict [(''color'', JStr ''#1a2b3c''), (''alpha'', JInt 50)]) =
       Inr (hex_byte (''#1a2b3c'' ! 1) (''#1a2b3c'' ! 2),
            hex_byte (''#1a2b3c'' ! 3) (''#1a2b3c'' ! 4),
            hex_byte (''#1a2b3c'' ! 5) (''#1a2b3c'' ! 6), float_quotient 50 100)
   \<and> py_int16 (py_slice 1 3 ''#1a2b3c'') = Some (hex_byte (''#1a2b3c'' ! 1) (''#1a2b3c'' ! 2))"
proof -
  have s: "theme_style ''#1a2b3c'' 50 (JDict [(''color'', JStr ''#1a2b3c''), (''alpha'', JInt 50)])"
    by (simp add: theme_style_def hex_color_def hex_val_def)
  note t = rgba_conversion [OF s]
  from s conjunct1 [OF t] conjunct1 [OF conjunct2 [OF t]] show ?thesis by (intro conjI)
qed

end
